theory Spec2Isabelle
  imports Main "HOL-Library.Word" "HOL-Library.Sublist" "HOL-Library.AList"
begin

section \<open>The terminal-session manager of \<^verbatim>\<open>electron/pty-manager.ts\<close>\<close>

text \<open>
  The development follows the first (canonical) \<^verbatim>\<open>PtyManager\<close> class of the file, the one
  that tracks \<^verbatim>\<open>outputBufferSize\<close> and trims at 200000/160000.

  A JavaScript string is a sequence of UTF-16 code units and \<^verbatim>\<open>.length\<close> counts them, so a
  string is a list of 16-bit words. \<open>str\<close> writes an ASCII literal as such a list.
\<close>

type_synonym jsstring = "16 word list"

definition str :: "string \<Rightarrow> jsstring" where
  "str s = map of_char s"

definition ESC :: "16 word" where
  "ESC = 0x1B"

definition CRLF :: jsstring where
  "CRLF = [0x0D, 0x0A]"

subsection \<open>Data model\<close>

datatype terminal_type = Terminal | ClaudeCode

datatype code_agent = Happy | Claude

text \<open>
  \<^verbatim>\<open>interface PtyInstance\<close>. The \<^verbatim>\<open>process\<close> field holds the handle of the spawned process;
  handles are natural numbers handed out by the host.
\<close>

record PtyInstance =
  process :: nat
  type :: terminal_type
  cwd :: jsstring
  usePty :: bool
  outputBuffer :: "jsstring list"
  outputBufferSize :: int

text \<open>The argument of \<^verbatim>\<open>create\<close>; the fields carry a prefix to keep them apart from the
  fields of \<open>PtyInstance\<close>.\<close>

record CreatePtyOptions =
  opt_id :: jsstring
  opt_cwd :: jsstring
  opt_type :: terminal_type
  opt_shell :: "jsstring option"
  opt_codeAgentType :: "code_agent option"

text \<open>
  What reaches the consumer: \<^verbatim>\<open>webContents.send('pty:output', id, data)\<close>,
  \<^verbatim>\<open>webContents.send('pty:exit', id, exitCode)\<close>, and a call of the optional
  \<^verbatim>\<open>onTerminalCountChange\<close> callback.
\<close>

datatype notification =
    PtyOutput jsstring jsstring
  | PtyExit jsstring int
  | TerminalCount nat

text \<open>
  What the manager asks of the host. The executable, its arguments and its environment are
  resolved from the host's file system and never touch the registry, so a spawn request is
  recorded with its working directory only; whether the spawn throws is the host's answer.
\<close>

datatype backend_call =
    PtySpawn jsstring
  | ChildSpawn jsstring
  | PtyWrite nat jsstring
  | StdinWrite nat jsstring
  | PtyResize nat int int
  | ProcessKill nat

datatype spawn_result = SpawnThrows | Spawned nat

text \<open>
  The manager object together with the module-level flag \<^verbatim>\<open>ptyAvailable\<close> and the state of
  the window it sends to. \<open>instances\<close> is the \<^verbatim>\<open>Map\<close>, in insertion order.
  \<open>onTerminalCountChange\<close> tells whether the optional callback was supplied.
  \<open>delivered\<close> and \<open>calls\<close> log the effects, oldest first.
\<close>

record PtyManager =
  instances :: "(jsstring \<times> PtyInstance) list"
  disposed :: bool
  onTerminalCountChange :: bool
  ptyAvailable :: bool
  windowDestroyed :: bool
  delivered :: "notification list"
  calls :: "backend_call list"

definition new_PtyManager :: "bool \<Rightarrow> bool \<Rightarrow> PtyManager" where
  "new_PtyManager probe callback =
     \<lparr>instances = [], disposed = False, onTerminalCountChange = callback,
      ptyAvailable = probe, windowDestroyed = False, delivered = [], calls = []\<rparr>"

subsection \<open>Notifications\<close>

definition notifyTerminalCountChange :: "PtyManager \<Rightarrow> PtyManager" where
  "notifyTerminalCountChange s =
     (if onTerminalCountChange s
      then s\<lparr>delivered := delivered s @ [TerminalCount (length (instances s))]\<rparr>
      else s)"

definition safeSend :: "notification \<Rightarrow> PtyManager \<Rightarrow> PtyManager" where
  "safeSend n s =
     (if \<not> disposed s \<and> \<not> windowDestroyed s
      then s\<lparr>delivered := delivered s @ [n]\<rparr>
      else s)"

subsection \<open>The output buffer\<close>

text \<open>The body of the \<^verbatim>\<open>while\<close> loop: \<^verbatim>\<open>shift()\<close> the oldest chunk and subtract its length.\<close>

definition shift_chunk :: "PtyInstance \<Rightarrow> PtyInstance" where
  "shift_chunk inst =
     inst\<lparr>outputBuffer := tl (outputBuffer inst),
          outputBufferSize := outputBufferSize inst - int (length (hd (outputBuffer inst)))\<rparr>"

text \<open>The loop: as long as more than one chunk is held and the size is above 160000.\<close>

function trim_loop :: "PtyInstance \<Rightarrow> PtyInstance" where
  "trim_loop inst =
     (if length (outputBuffer inst) > 1 \<and> outputBufferSize inst > 160000
      then trim_loop (shift_chunk inst)
      else inst)"
  by pat_completeness auto
termination
  by (relation "measure (\<lambda>inst. length (outputBuffer inst))") (auto simp: shift_chunk_def)

declare trim_loop.simps [simp del]

text \<open>
  The buffering block that the three data handlers (\<^verbatim>\<open>ptyProcess.onData\<close>, \<^verbatim>\<open>stdout\<close>,
  \<^verbatim>\<open>stderr\<close>) run on the instance they found: push, add the length, trim when above 200000.
\<close>

definition bufferOutput :: "jsstring \<Rightarrow> PtyInstance \<Rightarrow> PtyInstance" where
  "bufferOutput data inst =
     (let inst1 = inst\<lparr>outputBuffer := outputBuffer inst @ [data],
                        outputBufferSize := outputBufferSize inst + int (length data)\<rparr>
      in if outputBufferSize inst1 > 200000 then trim_loop inst1 else inst1)"

text \<open>The bookkeeping invariant: the tracked size is the sum of the chunk lengths.\<close>

definition buffer_consistent :: "PtyInstance \<Rightarrow> bool" where
  "buffer_consistent inst =
     (outputBufferSize inst = int (sum_list (map length (outputBuffer inst))))"

text \<open>A data handler: buffer when the id is registered, then forward the chunk as it came.\<close>

definition onData :: "jsstring \<Rightarrow> jsstring \<Rightarrow> PtyManager \<Rightarrow> PtyManager" where
  "onData tid data s =
     safeSend (PtyOutput tid data)
       (case map_of (instances s) tid of
          Some inst \<Rightarrow> s\<lparr>instances := AList.update tid (bufferOutput data inst) (instances s)\<rparr>
        | None \<Rightarrow> s)"

definition onExit :: "jsstring \<Rightarrow> int \<Rightarrow> PtyManager \<Rightarrow> PtyManager" where
  "onExit tid exitCode s =
     notifyTerminalCountChange
       (let s1 = safeSend (PtyExit tid exitCode) s
        in s1\<lparr>instances := AList.delete tid (instances s1)\<rparr>)"

text \<open>The child process reports \<^verbatim>\<open>null\<close> when it was ended by a signal: \<^verbatim>\<open>exitCode ?? 0\<close>.\<close>

definition child_onExit :: "jsstring \<Rightarrow> int option \<Rightarrow> PtyManager \<Rightarrow> PtyManager" where
  "child_onExit tid exitCode s =
     onExit tid (case exitCode of Some c \<Rightarrow> c | None \<Rightarrow> 0) s"

definition child_onError :: "jsstring \<Rightarrow> jsstring \<Rightarrow> PtyManager \<Rightarrow> PtyManager" where
  "child_onError tid message s =
     safeSend (PtyOutput tid (CRLF @ str ''[Error: '' @ message @ str '']'' @ CRLF)) s"

subsection \<open>Operations\<close>

definition degraded_notice :: jsstring where
  "degraded_notice = str ''[Terminal - child_process mode]'' @ CRLF"

definition fresh_instance :: "nat \<Rightarrow> CreatePtyOptions \<Rightarrow> bool \<Rightarrow> PtyInstance" where
  "fresh_instance h options pty =
     \<lparr>process = h, type = opt_type options, cwd = opt_cwd options, usePty = pty,
      outputBuffer = [], outputBufferSize = 0\<rparr>"

text \<open>
  \<^verbatim>\<open>create\<close>: the native branch, guarded by \<^verbatim>\<open>ptyAvailable\<close>, whose \<^verbatim>\<open>catch\<close> clears the
  flag; then the child-process branch when the native one was not used.
\<close>

definition create_native :: "CreatePtyOptions \<Rightarrow> spawn_result \<Rightarrow> PtyManager \<Rightarrow> bool \<times> PtyManager" where
  "create_native options ptyRes s =
     (if ptyAvailable s then
        (let s1 = s\<lparr>calls := calls s @ [PtySpawn (opt_cwd options)]\<rparr>
         in case ptyRes of
              Spawned h \<Rightarrow>
                (True, notifyTerminalCountChange
                         (s1\<lparr>instances :=
                               AList.update (opt_id options) (fresh_instance h options True)
                                 (instances s1)\<rparr>))
            | SpawnThrows \<Rightarrow> (False, s1\<lparr>ptyAvailable := False\<rparr>))
      else (False, s))"

definition create_child :: "CreatePtyOptions \<Rightarrow> spawn_result \<Rightarrow> PtyManager \<Rightarrow> bool \<times> PtyManager" where
  "create_child options childRes s =
     (let s1 = s\<lparr>calls := calls s @ [ChildSpawn (opt_cwd options)]\<rparr>
      in case childRes of
           SpawnThrows \<Rightarrow> (False, s1)
         | Spawned h \<Rightarrow>
             (let s2 = safeSend (PtyOutput (opt_id options) degraded_notice) s1;
                  s3 = s2\<lparr>instances :=
                             AList.update (opt_id options) (fresh_instance h options False)
                               (instances s2)\<rparr>
              in (True, notifyTerminalCountChange s3)))"

definition create :: "CreatePtyOptions \<Rightarrow> spawn_result \<Rightarrow> spawn_result \<Rightarrow> PtyManager \<Rightarrow> bool \<times> PtyManager" where
  "create options ptyRes childRes s =
     (let (usedPty, s1) = create_native options ptyRes s
      in if \<not> usedPty then create_child options childRes s1 else (True, s1))"

definition write_pty :: "jsstring \<Rightarrow> jsstring \<Rightarrow> PtyManager \<Rightarrow> PtyManager" where
  "write_pty tid data s =
     (case map_of (instances s) tid of
        Some inst \<Rightarrow>
          (if usePty inst then s\<lparr>calls := calls s @ [PtyWrite (process inst) data]\<rparr>
           else s\<lparr>calls := calls s @ [StdinWrite (process inst) data]\<rparr>)
      | None \<Rightarrow> s)"

definition resize :: "jsstring \<Rightarrow> int \<Rightarrow> int \<Rightarrow> PtyManager \<Rightarrow> PtyManager" where
  "resize tid cols rows s =
     (case map_of (instances s) tid of
        Some inst \<Rightarrow>
          (if usePty inst then s\<lparr>calls := calls s @ [PtyResize (process inst) cols rows]\<rparr>
           else s)
      | None \<Rightarrow> s)"

definition kill :: "jsstring \<Rightarrow> PtyManager \<Rightarrow> bool \<times> PtyManager" where
  "kill tid s =
     (case map_of (instances s) tid of
        Some inst \<Rightarrow>
          (True, notifyTerminalCountChange
                   (s\<lparr>calls := calls s @ [ProcessKill (process inst)],
                      instances := AList.delete tid (instances s)\<rparr>))
      | None \<Rightarrow> (False, s))"

definition restart ::
  "jsstring \<Rightarrow> jsstring \<Rightarrow> jsstring option \<Rightarrow> code_agent option \<Rightarrow>
   spawn_result \<Rightarrow> spawn_result \<Rightarrow> PtyManager \<Rightarrow> bool \<times> PtyManager" where
  "restart tid dir shell codeAgentType ptyRes childRes s =
     (case map_of (instances s) tid of
        Some inst \<Rightarrow>
          (let ty = type inst;
               savedBuffer = outputBuffer inst;
               savedBufferSize = outputBufferSize inst;
               s1 = snd (kill tid s);
               (created, s2) =
                 create \<lparr>opt_id = tid, opt_cwd = dir, opt_type = ty, opt_shell = shell,
                         opt_codeAgentType = codeAgentType\<rparr> ptyRes childRes s1
           in if created then
                (case map_of (instances s2) tid of
                   Some newInstance \<Rightarrow>
                     (created,
                      s2\<lparr>instances :=
                           AList.update tid
                             (newInstance\<lparr>outputBuffer := savedBuffer,
                                          outputBufferSize := savedBufferSize\<rparr>)
                             (instances s2)\<rparr>)
                 | None \<Rightarrow> (created, s2))
              else (created, s2))
      | None \<Rightarrow> (False, s))"

definition getCwd :: "jsstring \<Rightarrow> PtyManager \<Rightarrow> jsstring option" where
  "getCwd tid s =
     (case map_of (instances s) tid of Some inst \<Rightarrow> Some (cwd inst) | None \<Rightarrow> None)"

definition exists :: "jsstring \<Rightarrow> PtyManager \<Rightarrow> bool" where
  "exists tid s = (map_of (instances s) tid \<noteq> None)"

subsection \<open>The restoration filter\<close>

text \<open>
  \<^verbatim>\<open>s.replace(/.../g, '')\<close> for a pattern that is a choice between literal strings: scan from
  the left; where an alternative matches, drop it and go on behind it; otherwise keep the
  code unit and go on with the next.
\<close>

definition match_at :: "jsstring list \<Rightarrow> jsstring \<Rightarrow> jsstring option" where
  "match_at alts s = find (\<lambda>p. p \<noteq> [] \<and> prefix p s) alts"

function replace_g :: "jsstring list \<Rightarrow> jsstring \<Rightarrow> jsstring" where
  "replace_g alts [] = []"
| "replace_g alts (x # xs) =
     (case match_at alts (x # xs) of
        Some p \<Rightarrow> replace_g alts (drop (length p) (x # xs))
      | None \<Rightarrow> x # replace_g alts xs)"
  by pat_completeness auto
termination
proof (relation "measure (\<lambda>(alts, s). length s)")
  show "wf (measure (\<lambda>(alts, s). length s))" by simp
next
  fix alts :: "jsstring list" and x :: "16 word" and xs p :: jsstring
  assume "match_at alts (x # xs) = Some p"
  then have "p \<noteq> []"
    by (auto simp: match_at_def find_Some_iff)
  then show "((alts, drop (length p) (x # xs)), (alts, x # xs)) \<in> measure (\<lambda>(alts, s). length s)"
    by (cases p) auto
next
  fix alts :: "jsstring list" and x :: "16 word" and xs :: jsstring
  show "((alts, xs), (alts, x # xs)) \<in> measure (\<lambda>(alts, s). length s)" by simp
qed

definition clear_screen :: jsstring where
  "clear_screen = ESC # str ''[2J''"

definition clear_scrollback :: jsstring where
  "clear_scrollback = ESC # str ''[3J''"

definition cursor_home :: jsstring where
  "cursor_home = ESC # str ''[H''"

definition alt_screen_on :: jsstring where
  "alt_screen_on = ESC # str ''[?1049h''"

definition alt_screen_off :: jsstring where
  "alt_screen_off = ESC # str ''[?1049l''"

definition reset_terminal :: jsstring where
  "reset_terminal = ESC # str ''c''"

definition filterClearScreenCodes :: "jsstring \<Rightarrow> jsstring" where
  "filterClearScreenCodes buffer =
     replace_g [reset_terminal]
       (replace_g [alt_screen_on, alt_screen_off]
          (replace_g [cursor_home]
             (replace_g [clear_scrollback]
                (replace_g [clear_screen] buffer))))"

definition getOutputBuffer :: "jsstring \<Rightarrow> PtyManager \<Rightarrow> jsstring option" where
  "getOutputBuffer tid s =
     (case map_of (instances s) tid of
        Some inst \<Rightarrow> Some (filterClearScreenCodes (concat (outputBuffer inst)))
      | None \<Rightarrow> None)"

definition clearOutputBuffer :: "jsstring \<Rightarrow> PtyManager \<Rightarrow> PtyManager" where
  "clearOutputBuffer tid s =
     (case map_of (instances s) tid of
        Some inst \<Rightarrow>
          s\<lparr>instances :=
              AList.update tid (inst\<lparr>outputBuffer := [], outputBufferSize := 0\<rparr>) (instances s)\<rparr>
      | None \<Rightarrow> s)"

text \<open>
  \<^verbatim>\<open>dispose\<close>: set the flag, then kill every id of the map. Deleting the entry just visited
  does not disturb the iteration of a \<^verbatim>\<open>Map\<close>, so the loop visits the ids registered at
  its start.
\<close>

definition dispose :: "PtyManager \<Rightarrow> PtyManager" where
  "dispose s =
     fold (\<lambda>tid s'. snd (kill tid s')) (map fst (instances s)) (s\<lparr>disposed := True\<rparr>)"

subsection \<open>Everything that can happen to a manager\<close>

text \<open>
  The calls of the owner, the callbacks of the spawned processes, and the window being
  destroyed. A callback carries the id it was registered for; it may arrive at any time,
  also after that id was removed or registered anew.
\<close>

datatype event =
    Create CreatePtyOptions spawn_result spawn_result
  | Write jsstring jsstring
  | Resize jsstring int int
  | Kill jsstring
  | Restart jsstring jsstring "jsstring option" "code_agent option" spawn_result spawn_result
  | ClearOutputBuffer jsstring
  | Dispose
  | PtyData jsstring jsstring
  | PtyExited jsstring int
  | StdoutData jsstring jsstring
  | StderrData jsstring jsstring
  | ChildExited jsstring "int option"
  | ChildError jsstring jsstring
  | WindowDestroyed

fun step :: "event \<Rightarrow> PtyManager \<Rightarrow> PtyManager" where
  "step (Create options ptyRes childRes) s = snd (create options ptyRes childRes s)"
| "step (Write tid data) s = write_pty tid data s"
| "step (Resize tid cols rows) s = resize tid cols rows s"
| "step (Kill tid) s = snd (kill tid s)"
| "step (Restart tid dir shell agent ptyRes childRes) s =
     snd (restart tid dir shell agent ptyRes childRes s)"
| "step (ClearOutputBuffer tid) s = clearOutputBuffer tid s"
| "step Dispose s = dispose s"
| "step (PtyData tid data) s = onData tid data s"
| "step (PtyExited tid exitCode) s = onExit tid exitCode s"
| "step (StdoutData tid data) s = onData tid data s"
| "step (StderrData tid data) s = onData tid data s"
| "step (ChildExited tid exitCode) s = child_onExit tid exitCode s"
| "step (ChildError tid message) s = child_onError tid message s"
| "step WindowDestroyed s = s\<lparr>windowDestroyed := True\<rparr>"

definition run :: "event list \<Rightarrow> PtyManager \<Rightarrow> PtyManager" where
  "run es s = fold step es s"

subsection \<open>Predicates used in the statements\<close>

text \<open>Every registered instance keeps its tracked size equal to the sum of its chunks.\<close>

definition buffers_consistent :: "PtyManager \<Rightarrow> bool" where
  "buffers_consistent s = (\<forall>p\<in>set (instances s). buffer_consistent (snd p))"

text \<open>The notifications that go through \<open>safeSend\<close>, as opposed to the count callback.\<close>

fun is_ipc :: "notification \<Rightarrow> bool" where
  "is_ipc (PtyOutput tid data) = True"
| "is_ipc (PtyExit tid exitCode) = True"
| "is_ipc (TerminalCount n) = False"

fun is_pty_spawn :: "backend_call \<Rightarrow> bool" where
  "is_pty_spawn (PtySpawn dir) = True"
| "is_pty_spawn c = False"

text \<open>
  Two latches and what they gate, between an earlier state \<open>s\<close> and a later state \<open>s'\<close>:
  once disposed, the manager stays disposed and nothing more is sent through \<open>safeSend\<close>;
  once the native backend is unavailable, it stays so and no native spawn is requested.
\<close>

definition latched :: "PtyManager \<Rightarrow> PtyManager \<Rightarrow> bool" where
  "latched s s' =
     ((disposed s \<longrightarrow>
         disposed s' \<and> filter is_ipc (delivered s') = filter is_ipc (delivered s))
      \<and> (\<not> ptyAvailable s \<longrightarrow>
         \<not> ptyAvailable s'
         \<and> filter is_pty_spawn (calls s') = filter is_pty_spawn (calls s)))"






subsection \<open>Example inputs\<close>

definition example_options :: CreatePtyOptions where
  "example_options =
     \<lparr>opt_id = str ''s1'', opt_cwd = str ''/tmp'', opt_type = Terminal, opt_shell = None,
      opt_codeAgentType = None\<rparr>"

text \<open>A manager with a count callback and one session on the native backend.\<close>

definition one_session :: PtyManager where
  "one_session = snd (create example_options (Spawned 1) SpawnThrows (new_PtyManager True True))"

text \<open>The same manager after its session has produced the output \<^verbatim>\<open>hi\<close>.\<close>

definition one_session_with_output :: PtyManager where
  "one_session_with_output = onData (str ''s1'') (str ''hi'') one_session"



text \<open>A manager with a count callback whose first native spawn threw and that was then
  disposed.\<close>

definition degraded_disposed :: PtyManager where
  "degraded_disposed =
     run [Create example_options SpawnThrows (Spawned 1), Dispose] (new_PtyManager True True)"


text \<open>An instance whose buffer holds one chunk of exactly 200000 code units.\<close>

definition full_instance :: PtyInstance where
  "full_instance =
     \<lparr>process = 0, type = Terminal, cwd = str ''/tmp'', usePty = True,
      outputBuffer = [replicate 200000 (of_char CHR ''a'')], outputBufferSize = 200000\<rparr>"

section \<open>Properties of the output buffer\<close>

subsection \<open>The trimming loop\<close>

lemma trim_loop_stop:
  assumes "\<not> (length (outputBuffer inst) > 1 \<and> outputBufferSize inst > 160000)"
  shows "trim_loop inst = inst"
  using assms by (subst trim_loop.simps) auto

lemma trim_loop_shift:
  assumes "length (outputBuffer inst) > 1 \<and> outputBufferSize inst > 160000"
  shows "trim_loop inst = trim_loop (shift_chunk inst)"
  using assms by (subst trim_loop.simps) simp

lemma trim_loop_cases [case_names shift stop]:
  assumes "\<And>inst. length (outputBuffer inst) > 1 \<and> outputBufferSize inst > 160000 \<Longrightarrow>
             P (shift_chunk inst) \<Longrightarrow> trim_loop inst = trim_loop (shift_chunk inst) \<Longrightarrow> P inst"
    and "\<And>inst. \<not> (length (outputBuffer inst) > 1 \<and> outputBufferSize inst > 160000) \<Longrightarrow>
             trim_loop inst = inst \<Longrightarrow> P inst"
  shows "P inst"
proof (induction inst rule: trim_loop.induct)
  case (1 inst)
  show ?case
  proof (cases "length (outputBuffer inst) > 1 \<and> outputBufferSize inst > 160000")
    case True
    then have "P (shift_chunk inst)" using 1 by (simp add: shift_chunk_def)
    then show ?thesis using assms(1) True trim_loop_shift by blast
  next
    case False
    then show ?thesis using assms(2) trim_loop_stop by blast
  qed
qed

lemma trim_loop_fields:
  "process (trim_loop inst) = process inst \<and> type (trim_loop inst) = type inst \<and>
   cwd (trim_loop inst) = cwd inst \<and> usePty (trim_loop inst) = usePty inst"
  by (induction inst rule: trim_loop_cases) (simp_all add: shift_chunk_def)

lemma trim_loop_suffix: "suffix (outputBuffer (trim_loop inst)) (outputBuffer inst)"
proof (induction inst rule: trim_loop_cases)
  case (shift inst)
  have "suffix (tl (outputBuffer inst)) (outputBuffer inst)"
    by (simp add: suffix_tl)
  with shift show ?case
    by (auto simp: shift_chunk_def intro: suffix_order.trans)
next
  case (stop inst)
  then show ?case by simp
qed

lemma shift_chunk_consistent:
  "outputBuffer inst \<noteq> [] \<Longrightarrow> buffer_consistent inst \<Longrightarrow> buffer_consistent (shift_chunk inst)"
  by (cases "outputBuffer inst") (simp_all add: buffer_consistent_def shift_chunk_def)

lemma trim_loop_consistent:
  "buffer_consistent inst \<Longrightarrow> buffer_consistent (trim_loop inst)"
proof (induction inst rule: trim_loop_cases)
  case (shift inst)
  then have "outputBuffer inst \<noteq> []" by auto
  with shift show ?case by (simp add: shift_chunk_consistent)
next
  case (stop inst)
  then show ?case by simp
qed

lemma trim_loop_last:
  "outputBuffer inst \<noteq> [] \<Longrightarrow>
   outputBuffer (trim_loop inst) \<noteq> [] \<and>
   last (outputBuffer (trim_loop inst)) = last (outputBuffer inst)"
proof (induction inst rule: trim_loop_cases)
  case (shift inst)
  then obtain c c' cs where "outputBuffer inst = c # c' # cs"
    by (cases "outputBuffer inst"; cases "tl (outputBuffer inst)") auto
  with shift show ?case by (simp add: shift_chunk_def)
next
  case (stop inst)
  then show ?case by simp
qed

lemma trim_loop_settled:
  "length (outputBuffer (trim_loop inst)) \<le> 1 \<or> outputBufferSize (trim_loop inst) \<le> 160000"
proof (induction inst rule: trim_loop_cases)
  case (shift inst)
  then show ?case by simp
next
  case (stop inst)
  then show ?case by auto
qed

lemma trim_loop_minimal:
  "buffer_consistent inst \<Longrightarrow> suffix ys (outputBuffer inst) \<Longrightarrow>
   length ys > length (outputBuffer (trim_loop inst)) \<Longrightarrow>
   int (sum_list (map length ys)) > 160000"
proof (induction inst rule: trim_loop_cases)
  case (shift inst)
  then obtain c cs where cs: "outputBuffer inst = c # cs" by (cases "outputBuffer inst") auto
  then have nc: "buffer_consistent (shift_chunk inst)"
    using shift.prems(1) by (simp add: shift_chunk_consistent)
  from shift.prems(2) cs have "ys = c # cs \<or> suffix ys cs"
    by (simp add: suffix_Cons)
  then show ?case
  proof
    assume "ys = c # cs"
    then show ?thesis using shift.hyps(1) shift.prems(1) cs by (simp add: buffer_consistent_def)
  next
    assume "suffix ys cs"
    then show ?thesis using shift nc cs by (simp add: shift_chunk_def)
  qed
next
  case (stop inst)
  then show ?case by (auto dest: suffix_length_le)
qed


lemma bufferOutput_suffix:
  "suffix (outputBuffer (bufferOutput data inst)) (outputBuffer inst @ [data])"
  using trim_loop_suffix [of "inst\<lparr>outputBuffer := outputBuffer inst @ [data],
      outputBufferSize := outputBufferSize inst + int (length data)\<rparr>"]
  by (simp add: bufferOutput_def Let_def)

lemma bufferOutput_consistent:
  assumes "buffer_consistent inst"
  shows "buffer_consistent (bufferOutput data inst)"
proof -
  let ?i = "inst\<lparr>outputBuffer := outputBuffer inst @ [data],
      outputBufferSize := outputBufferSize inst + int (length data)\<rparr>"
  have "buffer_consistent ?i" using assms by (simp add: buffer_consistent_def)
  then have "buffer_consistent (trim_loop ?i)" by (rule trim_loop_consistent)
  with \<open>buffer_consistent ?i\<close> show ?thesis by (simp add: bufferOutput_def Let_def)
qed

lemma bufferOutput_last:
  "outputBuffer (bufferOutput data inst) \<noteq> [] \<and> last (outputBuffer (bufferOutput data inst)) = data"
  using trim_loop_last [of "inst\<lparr>outputBuffer := outputBuffer inst @ [data],
      outputBufferSize := outputBufferSize inst + int (length data)\<rparr>"]
  by (simp add: bufferOutput_def Let_def)

lemma bufferOutput_fields:
  "process (bufferOutput data inst) = process inst \<and> type (bufferOutput data inst) = type inst \<and>
   cwd (bufferOutput data inst) = cwd inst \<and> usePty (bufferOutput data inst) = usePty inst"
  by (simp add: bufferOutput_def Let_def trim_loop_fields)

lemma bufferOutput_settled:
  assumes "outputBufferSize inst + int (length data) > 200000"
  shows "outputBuffer (bufferOutput data inst) = [data] \<or>
         outputBufferSize (bufferOutput data inst) \<le> 160000"
proof -
  let ?i = "inst\<lparr>outputBuffer := outputBuffer inst @ [data],
      outputBufferSize := outputBufferSize inst + int (length data)\<rparr>"
  have eq: "bufferOutput data inst = trim_loop ?i"
    using assms by (simp add: bufferOutput_def Let_def)
  show ?thesis
  proof (cases "outputBufferSize (trim_loop ?i) \<le> 160000")
    case True
    then show ?thesis by (simp add: eq)
  next
    case False
    then have "length (outputBuffer (trim_loop ?i)) \<le> 1"
      using trim_loop_settled [of ?i] by simp
    moreover have "outputBuffer (trim_loop ?i) \<noteq> [] \<and> last (outputBuffer (trim_loop ?i)) = data"
      using bufferOutput_last [of data inst] by (simp add: eq)
    ultimately have "outputBuffer (trim_loop ?i) = [data]"
      by (cases "outputBuffer (trim_loop ?i)") auto
    then show ?thesis by (simp add: eq)
  qed
qed

lemma bufferOutput_minimal:
  assumes "buffer_consistent inst" and "outputBufferSize inst + int (length data) > 200000"
    and "suffix ys (outputBuffer inst @ [data])"
    and "length ys > length (outputBuffer (bufferOutput data inst))"
  shows "int (sum_list (map length ys)) > 160000"
proof -
  let ?i = "inst\<lparr>outputBuffer := outputBuffer inst @ [data],
      outputBufferSize := outputBufferSize inst + int (length data)\<rparr>"
  have eq: "bufferOutput data inst = trim_loop ?i"
    using assms(2) by (simp add: bufferOutput_def Let_def)
  have "buffer_consistent ?i" using assms(1) by (simp add: buffer_consistent_def)
  then show ?thesis
    using trim_loop_minimal [of ?i ys] assms(3,4) by (simp add: eq)
qed

subsection \<open>Appending beyond the high-water mark\<close>

text \<open>
  C1, as the code has it. When an append takes the tracked size of a consistent buffer above
  200000, the buffer that remains is a suffix of the chunk sequence (whole oldest chunks
  have gone, none is split) and is consistent again; its size is at most the low-water mark
  160000, unless only the chunk just appended is left; so the size is at most 200000 whenever
  the appended chunk itself is. Trimming stops as early as it may: every longer suffix of
  the chunk sequence is above 160000. The size is not bounded from below by 160000.
\<close>

theorem trim_after_overflow:
  assumes "buffer_consistent inst"
    and "outputBufferSize inst + int (length data) > 200000"
  shows "suffix (outputBuffer (bufferOutput data inst)) (outputBuffer inst @ [data])
       \<and> buffer_consistent (bufferOutput data inst)
       \<and> (outputBuffer (bufferOutput data inst) = [data]
            \<or> outputBufferSize (bufferOutput data inst) \<le> 160000)
       \<and> (int (length data) \<le> 200000 \<longrightarrow> outputBufferSize (bufferOutput data inst) \<le> 200000)
       \<and> (\<forall>ys. suffix ys (outputBuffer inst @ [data])
                 \<and> length ys > length (outputBuffer (bufferOutput data inst))
               \<longrightarrow> int (sum_list (map length ys)) > 160000)"
proof -
  have c: "buffer_consistent (bufferOutput data inst)"
    using assms(1) by (rule bufferOutput_consistent)
  have s: "outputBuffer (bufferOutput data inst) = [data]
            \<or> outputBufferSize (bufferOutput data inst) \<le> 160000"
    using assms(2) by (rule bufferOutput_settled)
  have h: "int (length data) \<le> 200000 \<longrightarrow> outputBufferSize (bufferOutput data inst) \<le> 200000"
    using s c by (auto simp: buffer_consistent_def)
  show ?thesis
    using bufferOutput_suffix c s h bufferOutput_minimal [OF assms] by blast
qed

theorem trim_after_overflow_witness:
  "buffer_consistent full_instance
   \<and> outputBufferSize full_instance + int (length (str ''b'')) > 200000
   \<and> suffix (outputBuffer (bufferOutput (str ''b'') full_instance))
        (outputBuffer full_instance @ [str ''b''])
   \<and> (outputBuffer (bufferOutput (str ''b'') full_instance) = [str ''b'']
        \<or> outputBufferSize (bufferOutput (str ''b'') full_instance) \<le> 160000)"
proof -
  have c: "buffer_consistent full_instance"
    by (simp add: buffer_consistent_def full_instance_def)
  have h: "outputBufferSize full_instance + int (length (str ''b'')) > 200000"
    by (simp add: full_instance_def str_def)
  show ?thesis
    using c h trim_after_overflow [OF c h] by blast
qed

text \<open>
  C1 as it is written fails: a buffer holding one chunk of 200000 code units that receives one
  more code unit is trimmed down to that single code unit, far below 160000.
\<close>

theorem trim_below_low_water_counterexample:
  "buffer_consistent full_instance
   \<and> outputBufferSize full_instance + int (length (str ''b'')) > 200000
   \<and> outputBuffer (bufferOutput (str ''b'') full_instance) = [str ''b'']
   \<and> outputBufferSize (bufferOutput (str ''b'') full_instance) = 1
   \<and> \<not> (160000 \<le> outputBufferSize (bufferOutput (str ''b'') full_instance))"
  by (simp add: buffer_consistent_def full_instance_def str_def bufferOutput_def Let_def
      trim_loop_shift trim_loop_stop shift_chunk_def)

subsection \<open>The scenario of the two chunks\<close>

text \<open>
  C8. Starting from the empty buffer of a fresh instance, appending \<^verbatim>\<open>'a'\<close> 150000 times in
  one chunk and then \<^verbatim>\<open>'b'\<close> 60000 times in one chunk leaves a tracked size of at most
  200000, and the buffer ends with the whole \<^verbatim>\<open>'b'\<close> chunk; in fact that chunk is all that
  is left, with size 60000.
\<close>

theorem scenario_150000_then_60000:
  "outputBufferSize
     (bufferOutput (replicate 60000 (of_char CHR ''b''))
        (bufferOutput (replicate 150000 (of_char CHR ''a'')) (fresh_instance h options pty)))
   \<le> 200000
   \<and> last (outputBuffer
        (bufferOutput (replicate 60000 (of_char CHR ''b''))
           (bufferOutput (replicate 150000 (of_char CHR ''a'')) (fresh_instance h options pty))))
       = replicate 60000 (of_char CHR ''b'')
   \<and> outputBuffer
        (bufferOutput (replicate 60000 (of_char CHR ''b''))
           (bufferOutput (replicate 150000 (of_char CHR ''a'')) (fresh_instance h options pty)))
       = [replicate 60000 (of_char CHR ''b'')]
   \<and> outputBufferSize
        (bufferOutput (replicate 60000 (of_char CHR ''b''))
           (bufferOutput (replicate 150000 (of_char CHR ''a'')) (fresh_instance h options pty)))
       = 60000"
  by (simp add: fresh_instance_def bufferOutput_def Let_def
      trim_loop_shift trim_loop_stop shift_chunk_def)

subsection \<open>The newest chunk is never trimmed\<close>

text \<open>
  C9. After any append the buffer is not empty and ends with the chunk just appended. If
  that chunk alone is longer than 200000 (the buffer being consistent), it is kept whole as
  the only chunk and the tracked size, its length, stays above 200000; the next append,
  whatever it is, trims it away and leaves only the newer chunk.
\<close>

theorem newest_chunk_retained:
  "outputBuffer (bufferOutput data inst) \<noteq> []
   \<and> last (outputBuffer (bufferOutput data inst)) = data
   \<and> (buffer_consistent inst \<and> int (length data) > 200000 \<longrightarrow>
        outputBuffer (bufferOutput data inst) = [data]
        \<and> outputBufferSize (bufferOutput data inst) = int (length data)
        \<and> outputBufferSize (bufferOutput data inst) > 200000
        \<and> outputBuffer (bufferOutput data2 (bufferOutput data inst)) = [data2]
        \<and> outputBufferSize (bufferOutput data2 (bufferOutput data inst)) = int (length data2))"
proof -
  have big: "outputBuffer (bufferOutput data inst) = [data]
        \<and> outputBufferSize (bufferOutput data inst) = int (length data)
        \<and> outputBufferSize (bufferOutput data inst) > 200000
        \<and> outputBuffer (bufferOutput data2 (bufferOutput data inst)) = [data2]
        \<and> outputBufferSize (bufferOutput data2 (bufferOutput data inst)) = int (length data2)"
    if c: "buffer_consistent inst" and l: "int (length data) > 200000"
  proof -
    have over: "outputBufferSize inst + int (length data) > 200000"
      using c l by (simp add: buffer_consistent_def)
    have c': "buffer_consistent (bufferOutput data inst)"
      using c by (rule bufferOutput_consistent)
    have "suffix [data] (outputBuffer (bufferOutput data inst))"
      using bufferOutput_last [of data inst]
      by (cases "outputBuffer (bufferOutput data inst)" rule: rev_cases) (auto simp: suffix_def)
    then have ge: "outputBufferSize (bufferOutput data inst) \<ge> int (length data)"
      using c' by (auto simp: buffer_consistent_def suffix_def)
    then have one: "outputBuffer (bufferOutput data inst) = [data]"
      using bufferOutput_settled [OF over] l by auto
    then have sz: "outputBufferSize (bufferOutput data inst) = int (length data)"
      using c' by (simp add: buffer_consistent_def)
    have nxt: "outputBuffer (bufferOutput data2 (bufferOutput data inst)) = [data2]
        \<and> outputBufferSize (bufferOutput data2 (bufferOutput data inst)) = int (length data2)"
      using one sz l
      by (simp add: bufferOutput_def [of data2] Let_def trim_loop_shift trim_loop_stop
          shift_chunk_def)
    show ?thesis using one sz l nxt by simp
  qed
  show ?thesis using bufferOutput_last [of data inst] big by blast
qed

theorem newest_chunk_retained_witness:
  "buffer_consistent (fresh_instance 7 \<lparr>opt_id = str ''s1'', opt_cwd = str ''/tmp'',
       opt_type = Terminal, opt_shell = None, opt_codeAgentType = None\<rparr> True)
   \<and> int (length (replicate 200001 (of_char CHR ''a'' :: 16 word))) > 200000
   \<and> outputBuffer (bufferOutput (replicate 200001 (of_char CHR ''a''))
        (fresh_instance 7 \<lparr>opt_id = str ''s1'', opt_cwd = str ''/tmp'',
       opt_type = Terminal, opt_shell = None, opt_codeAgentType = None\<rparr> True))
      = [replicate 200001 (of_char CHR ''a'')]
   \<and> outputBufferSize (bufferOutput (replicate 200001 (of_char CHR ''a''))
        (fresh_instance 7 \<lparr>opt_id = str ''s1'', opt_cwd = str ''/tmp'',
       opt_type = Terminal, opt_shell = None, opt_codeAgentType = None\<rparr> True)) > 200000"
proof -
  let ?i = "fresh_instance 7 \<lparr>opt_id = str ''s1'', opt_cwd = str ''/tmp'',
       opt_type = Terminal, opt_shell = None, opt_codeAgentType = None\<rparr> True"
  have c: "buffer_consistent ?i"
    by (simp add: buffer_consistent_def fresh_instance_def)
  have l: "int (length (replicate 200001 (of_char CHR ''a'' :: 16 word))) > 200000"
    by simp
  show ?thesis
    using c l newest_chunk_retained [of "replicate 200001 (of_char CHR ''a'')" ?i] by blast
qed

section \<open>Properties of the manager\<close>

subsection \<open>Notification helpers\<close>

lemma safeSend_fields [simp]:
  "instances (safeSend n s) = instances s"
  "disposed (safeSend n s) = disposed s"
  "ptyAvailable (safeSend n s) = ptyAvailable s"
  "windowDestroyed (safeSend n s) = windowDestroyed s"
  "onTerminalCountChange (safeSend n s) = onTerminalCountChange s"
  "calls (safeSend n s) = calls s"
  by (simp_all add: safeSend_def)

lemma notify_fields [simp]:
  "instances (notifyTerminalCountChange s) = instances s"
  "disposed (notifyTerminalCountChange s) = disposed s"
  "ptyAvailable (notifyTerminalCountChange s) = ptyAvailable s"
  "windowDestroyed (notifyTerminalCountChange s) = windowDestroyed s"
  "onTerminalCountChange (notifyTerminalCountChange s) = onTerminalCountChange s"
  "calls (notifyTerminalCountChange s) = calls s"
  by (simp_all add: notifyTerminalCountChange_def)

lemma safeSend_delivered:
  "delivered (safeSend n s) =
     (if \<not> disposed s \<and> \<not> windowDestroyed s then delivered s @ [n] else delivered s)"
  by (simp add: safeSend_def)

lemma notify_delivered:
  "delivered (notifyTerminalCountChange s) =
     (if onTerminalCountChange s then delivered s @ [TerminalCount (length (instances s))]
      else delivered s)"
  by (simp add: notifyTerminalCountChange_def)

lemma filter_empty [simp]: "filterClearScreenCodes [] = []"
  by (simp add: filterClearScreenCodes_def)

subsection \<open>Unregistered ids\<close>

text \<open>
  C5. For an id that the registry does not hold, \<open>exists\<close> is false, \<open>write\<close>, \<open>resize\<close> and
  \<open>clearOutputBuffer\<close> leave the whole state (registry, flags, notifications, backend calls)
  as it was, \<open>kill\<close> returns false and leaves the state as it was, and \<open>getCwd\<close> and
  \<open>getOutputBuffer\<close> return null.
\<close>

theorem unknown_id_is_inert:
  assumes "map_of (instances s) tid = None"
  shows "\<not> exists tid s
       \<and> write_pty tid data s = s
       \<and> resize tid cols rows s = s
       \<and> clearOutputBuffer tid s = s
       \<and> kill tid s = (False, s)
       \<and> getCwd tid s = None
       \<and> getOutputBuffer tid s = None"
  using assms
  by (simp add: exists_def write_pty_def resize_def clearOutputBuffer_def kill_def getCwd_def
      getOutputBuffer_def)

theorem unknown_id_is_inert_witness:
  "map_of (instances (new_PtyManager True True)) (str ''s1'') = None
   \<and> \<not> exists (str ''s1'') (new_PtyManager True True)
   \<and> write_pty (str ''s1'') (str ''ls'') (new_PtyManager True True) = new_PtyManager True True
   \<and> kill (str ''s1'') (new_PtyManager True True) = (False, new_PtyManager True True)
   \<and> getOutputBuffer (str ''s1'') (new_PtyManager True True) = None"
proof -
  have h: "map_of (instances (new_PtyManager True True)) (str ''s1'') = None"
    by (simp add: new_PtyManager_def)
  show ?thesis
    using h unknown_id_is_inert [OF h, of "str ''ls''"] by simp
qed

subsection \<open>The branches of create\<close>

lemma create_child_ok:
  "create_child options (Spawned h) s =
     (True, notifyTerminalCountChange
              ((safeSend (PtyOutput (opt_id options) degraded_notice)
                 (s\<lparr>calls := calls s @ [ChildSpawn (opt_cwd options)]\<rparr>))
               \<lparr>instances := AList.update (opt_id options) (fresh_instance h options False)
                              (instances s)\<rparr>))"
  by (simp add: create_child_def Let_def)

lemma create_child_throws:
  "create_child options SpawnThrows s =
     (False, s\<lparr>calls := calls s @ [ChildSpawn (opt_cwd options)]\<rparr>)"
  by (simp add: create_child_def Let_def)

lemma create_unavailable:
  "\<not> ptyAvailable s \<Longrightarrow> create options ptyRes childRes s = create_child options childRes s"
  by (simp add: create_def create_native_def)

lemma create_native_throws:
  "ptyAvailable s \<Longrightarrow>
   create options SpawnThrows childRes s =
     create_child options childRes
       (s\<lparr>calls := calls s @ [PtySpawn (opt_cwd options)], ptyAvailable := False\<rparr>)"
  by (simp add: create_def create_native_def Let_def)

lemma create_native_ok:
  "ptyAvailable s \<Longrightarrow>
   create options (Spawned h) childRes s =
     (True, notifyTerminalCountChange
              (s\<lparr>calls := calls s @ [PtySpawn (opt_cwd options)],
                 instances := AList.update (opt_id options) (fresh_instance h options True)
                                (instances s)\<rparr>))"
  by (simp add: create_def create_native_def Let_def)

lemma create_cases [case_names native fallback unavailable]:
  assumes "\<And>h. ptyAvailable s \<Longrightarrow> ptyRes = Spawned h \<Longrightarrow> P"
    and "ptyAvailable s \<Longrightarrow> ptyRes = SpawnThrows \<Longrightarrow> P"
    and "\<not> ptyAvailable s \<Longrightarrow> P"
  shows P
  using assms by (cases "ptyAvailable s"; cases ptyRes) auto

subsection \<open>Synthetic text stays out of the buffer\<close>

text \<open>
  C10. A create that succeeds on the child-process path registers an instance with an empty
  buffer, so \<open>getOutputBuffer\<close> returns the empty string right after it: the notice went to
  the consumer only. A child-process error event sends its text to the consumer (when
  sending is not suppressed) and leaves the registry, hence every buffer, as it was.
\<close>

theorem synthetic_text_not_buffered:
  "(\<not> ptyAvailable s \<or> ptyRes = SpawnThrows \<longrightarrow>
      fst (create options ptyRes (Spawned h) s)
      \<and> map_of (instances (snd (create options ptyRes (Spawned h) s))) (opt_id options)
          = Some (fresh_instance h options False)
      \<and> getOutputBuffer (opt_id options) (snd (create options ptyRes (Spawned h) s)) = Some [])
   \<and> instances (child_onError tid message s) = instances s
   \<and> getOutputBuffer tid' (child_onError tid message s) = getOutputBuffer tid' s
   \<and> delivered (child_onError tid message s) =
        (if \<not> disposed s \<and> \<not> windowDestroyed s
         then delivered s @ [PtyOutput tid (CRLF @ str ''[Error: '' @ message @ str '']'' @ CRLF)]
         else delivered s)"
proof -
  have a: "fst (create options ptyRes (Spawned h) s)
      \<and> map_of (instances (snd (create options ptyRes (Spawned h) s))) (opt_id options)
          = Some (fresh_instance h options False)
      \<and> getOutputBuffer (opt_id options) (snd (create options ptyRes (Spawned h) s)) = Some []"
    if "\<not> ptyAvailable s \<or> ptyRes = SpawnThrows"
  proof (cases "ptyAvailable s")
    case True
    with that have "ptyRes = SpawnThrows" by simp
    with True show ?thesis
      by (simp add: create_native_throws create_child_ok getOutputBuffer_def update_conv'
          fresh_instance_def)
  next
    case False
    then show ?thesis
      by (simp add: create_unavailable create_child_ok getOutputBuffer_def update_conv'
          fresh_instance_def)
  qed
  have b: "instances (child_onError tid message s) = instances s"
    by (simp add: child_onError_def)
  then have c: "getOutputBuffer tid' (child_onError tid message s) = getOutputBuffer tid' s"
    by (simp add: getOutputBuffer_def)
  have d: "delivered (child_onError tid message s) =
        (if \<not> disposed s \<and> \<not> windowDestroyed s
         then delivered s @ [PtyOutput tid (CRLF @ str ''[Error: '' @ message @ str '']'' @ CRLF)]
         else delivered s)"
    by (simp add: child_onError_def safeSend_delivered)
  show ?thesis using a b c d by blast
qed

theorem synthetic_text_not_buffered_witness:
  "ptyAvailable (new_PtyManager False True) = False
   \<and> fst (create example_options SpawnThrows (Spawned 1) (new_PtyManager False True))
   \<and> getOutputBuffer (opt_id example_options)
        (snd (create example_options SpawnThrows (Spawned 1) (new_PtyManager False True)))
      = Some []
   \<and> delivered (snd (create example_options SpawnThrows (Spawned 1) (new_PtyManager False True)))
      = [PtyOutput (str ''s1'') degraded_notice, TerminalCount 1]"
proof -
  have h: "\<not> ptyAvailable (new_PtyManager False True) \<or> SpawnThrows = SpawnThrows"
    by simp
  have d: "delivered (snd (create example_options SpawnThrows (Spawned 1) (new_PtyManager False True)))
      = [PtyOutput (str ''s1'') degraded_notice, TerminalCount 1]"
    by (simp add: create_unavailable create_child_ok new_PtyManager_def example_options_def
        safeSend_delivered notify_delivered)
  have p: "ptyAvailable (new_PtyManager False True) = False"
    by (simp add: new_PtyManager_def)
  show ?thesis
    using h d p synthetic_text_not_buffered
      [of "new_PtyManager False True" SpawnThrows example_options 1]
    by blast
qed

subsection \<open>Restart\<close>

lemma kill_registered:
  "map_of (instances s) tid = Some inst \<Longrightarrow>
   kill tid s =
     (True, notifyTerminalCountChange
              (s\<lparr>calls := calls s @ [ProcessKill (process inst)],
                 instances := AList.delete tid (instances s)\<rparr>))"
  by (simp add: kill_def)

lemma kill_instances: "instances (snd (kill tid s)) = AList.delete tid (instances s)"
proof (cases "map_of (instances s) tid")
  case None
  then have "tid \<notin> fst ` set (instances s)" by (simp add: map_of_eq_None_iff)
  with None show ?thesis by (simp add: kill_def)
next
  case (Some inst)
  then show ?thesis by (simp add: kill_registered)
qed

lemma create_result:
  "fst (create options ptyRes childRes s) \<longleftrightarrow>
     (ptyAvailable s \<and> ptyRes \<noteq> SpawnThrows) \<or> childRes \<noteq> SpawnThrows"
  by (cases "ptyAvailable s"; cases ptyRes; cases childRes)
     (simp_all add: create_unavailable create_native_throws create_native_ok create_child_ok
       create_child_throws)

lemma create_success_instances:
  assumes "fst (create options ptyRes childRes s)"
  shows "\<exists>h pty. instances (snd (create options ptyRes childRes s)) =
           AList.update (opt_id options) (fresh_instance h options pty) (instances s)"
  using assms
  by (cases "ptyAvailable s"; cases ptyRes; cases childRes)
     (auto simp: create_unavailable create_native_throws create_native_ok create_child_ok
       create_child_throws)

lemma create_failure_instances:
  assumes "\<not> fst (create options ptyRes childRes s)"
  shows "instances (snd (create options ptyRes childRes s)) = instances s"
  using assms
  by (cases "ptyAvailable s"; cases ptyRes; cases childRes)
     (auto simp: create_unavailable create_native_throws create_native_ok create_child_ok
       create_child_throws)

text \<open>
  C2. For a registered id: when \<open>restart\<close> returns true, the instance registered under the id
  afterwards holds the chunk sequence and the tracked size of the instance that was there
  before (with the new working directory and the old type), so the snapshot
  \<open>getOutputBuffer\<close> returns is the one it returned before; when the re-create fails, that
  is when no backend spawns, \<open>restart\<close> returns false and the id is no longer registered.
\<close>

theorem restart_preserves_buffer:
  assumes "map_of (instances s) tid = Some inst"
  shows "(fst (restart tid dir shell agent ptyRes childRes s) \<longrightarrow>
            (\<exists>inst'. map_of (instances (snd (restart tid dir shell agent ptyRes childRes s))) tid
                       = Some inst'
                     \<and> outputBuffer inst' = outputBuffer inst
                     \<and> outputBufferSize inst' = outputBufferSize inst
                     \<and> cwd inst' = dir \<and> type inst' = type inst)
            \<and> getOutputBuffer tid (snd (restart tid dir shell agent ptyRes childRes s))
                = getOutputBuffer tid s)
       \<and> (\<not> fst (restart tid dir shell agent ptyRes childRes s) \<longrightarrow>
            \<not> exists tid (snd (restart tid dir shell agent ptyRes childRes s)))
       \<and> (fst (restart tid dir shell agent ptyRes childRes s) \<longleftrightarrow>
            (ptyAvailable s \<and> ptyRes \<noteq> SpawnThrows) \<or> childRes \<noteq> SpawnThrows)"
proof -
  let ?o = "\<lparr>opt_id = tid, opt_cwd = dir, opt_type = type inst, opt_shell = shell,
             opt_codeAgentType = agent\<rparr>"
  let ?s1 = "snd (kill tid s)"
  let ?c = "create ?o ptyRes childRes ?s1"
  have i1: "instances ?s1 = AList.delete tid (instances s)" by (rule kill_instances)
  have p1: "ptyAvailable ?s1 = ptyAvailable s" using assms by (simp add: kill_registered)
  have r: "fst ?c \<longleftrightarrow> (ptyAvailable s \<and> ptyRes \<noteq> SpawnThrows) \<or> childRes \<noteq> SpawnThrows"
    by (simp add: create_result p1)
  show ?thesis
  proof (cases "fst ?c")
    case True
    then obtain h pty where reg: "instances (snd ?c) = AList.update tid (fresh_instance h ?o pty) (instances ?s1)"
      using create_success_instances [of ?o ptyRes childRes ?s1] by auto
    then have look: "map_of (instances (snd ?c)) tid = Some (fresh_instance h ?o pty)"
      by (simp add: update_conv')
    have res: "restart tid dir shell agent ptyRes childRes s =
        (True, (snd ?c)\<lparr>instances :=
                  AList.update tid
                    ((fresh_instance h ?o pty)\<lparr>outputBuffer := outputBuffer inst,
                        outputBufferSize := outputBufferSize inst\<rparr>)
                    (instances (snd ?c))\<rparr>)"
      using assms True look by (simp add: restart_def Let_def case_prod_beta)
    show ?thesis
      using True r assms
      by (simp add: res update_conv' getOutputBuffer_def fresh_instance_def)
  next
    case False
    then have "instances (snd ?c) = instances ?s1"
      by (rule create_failure_instances)
    moreover have res: "restart tid dir shell agent ptyRes childRes s = (False, snd ?c)"
      using assms False by (simp add: restart_def Let_def case_prod_beta)
    ultimately show ?thesis
      using False r by (simp add: exists_def i1 delete_conv')
  qed
qed


lemma one_session_with_output_instances:
  "instances one_session_with_output =
     [(str ''s1'', \<lparr>process = 1, type = Terminal, cwd = str ''/tmp'', usePty = True,
                    outputBuffer = [str ''hi''], outputBufferSize = 2\<rparr>)]"
  by (simp add: one_session_with_output_def one_session_def create_native_ok new_PtyManager_def
      example_options_def onData_def bufferOutput_def fresh_instance_def str_def)

theorem restart_preserves_buffer_witness:
  "map_of (instances one_session_with_output) (str ''s1'') =
     Some \<lparr>process = 1, type = Terminal, cwd = str ''/tmp'', usePty = True,
           outputBuffer = [str ''hi''], outputBufferSize = 2\<rparr>
   \<and> fst (restart (str ''s1'') (str ''/home'') None None (Spawned 2) SpawnThrows
           one_session_with_output)
   \<and> getOutputBuffer (str ''s1'')
         (snd (restart (str ''s1'') (str ''/home'') None None (Spawned 2) SpawnThrows
                one_session_with_output))
       = getOutputBuffer (str ''s1'') one_session_with_output
   \<and> \<not> fst (restart (str ''s1'') (str ''/home'') None None SpawnThrows SpawnThrows
               one_session_with_output)
   \<and> \<not> exists (str ''s1'')
           (snd (restart (str ''s1'') (str ''/home'') None None SpawnThrows SpawnThrows
                  one_session_with_output))"
proof -
  have h: "map_of (instances one_session_with_output) (str ''s1'') =
     Some \<lparr>process = 1, type = Terminal, cwd = str ''/tmp'', usePty = True,
           outputBuffer = [str ''hi''], outputBufferSize = 2\<rparr>"
    by (simp add: one_session_with_output_instances)
  have p: "ptyAvailable one_session_with_output"
    by (simp add: one_session_with_output_def one_session_def create_native_ok
        new_PtyManager_def onData_def)
  show ?thesis
    using h p
      restart_preserves_buffer [OF h, of "str ''/home''" None None "Spawned 2" SpawnThrows]
      restart_preserves_buffer [OF h, of "str ''/home''" None None SpawnThrows SpawnThrows]
    by simp
qed

subsection \<open>The size bookkeeping is an invariant\<close>

lemma update_preserves:
  "\<forall>p\<in>set al. P (snd p) \<Longrightarrow> P v \<Longrightarrow> \<forall>p\<in>set (AList.update k v al). P (snd p)"
  by (induction al) auto

lemma consistent_update:
  assumes "buffers_consistent s" and "buffer_consistent v"
    and "instances s' = AList.update k v (instances s)"
  shows "buffers_consistent s'"
  unfolding buffers_consistent_def assms(3)
  using assms(1,2) unfolding buffers_consistent_def by (rule update_preserves)

lemma consistent_delete:
  assumes "buffers_consistent s" and "instances s' = AList.delete k (instances s)"
  shows "buffers_consistent s'"
  using assms by (simp add: buffers_consistent_def AList.delete_eq)

lemma consistent_same:
  assumes "buffers_consistent s" and "instances s' = instances s"
  shows "buffers_consistent s'"
  using assms by (simp add: buffers_consistent_def)

lemma registered_consistent:
  assumes "buffers_consistent s" and "map_of (instances s) tid = Some inst"
  shows "buffer_consistent inst"
proof -
  have "(tid, inst) \<in> set (instances s)" using assms(2) by (rule map_of_SomeD)
  then show ?thesis using assms(1) by (force simp: buffers_consistent_def)
qed

lemma fresh_consistent: "buffer_consistent (fresh_instance h options pty)"
  by (simp add: buffer_consistent_def fresh_instance_def)

lemma create_consistent:
  assumes "buffers_consistent s"
  shows "buffers_consistent (snd (create options ptyRes childRes s))"
proof (cases "fst (create options ptyRes childRes s)")
  case True
  then show ?thesis
    using create_success_instances [OF True] assms
    by (blast intro: consistent_update fresh_consistent)
next
  case False
  then show ?thesis
    using create_failure_instances [OF False] assms by (blast intro: consistent_same)
qed

lemma kill_consistent:
  "buffers_consistent s \<Longrightarrow> buffers_consistent (snd (kill tid s))"
  by (erule consistent_delete) (rule kill_instances)

lemma restart_consistent:
  assumes "buffers_consistent s"
  shows "buffers_consistent (snd (restart tid dir shell agent ptyRes childRes s))"
proof (cases "map_of (instances s) tid")
  case None
  then show ?thesis using assms by (simp add: restart_def)
next
  case (Some inst)
  let ?o = "\<lparr>opt_id = tid, opt_cwd = dir, opt_type = type inst, opt_shell = shell,
             opt_codeAgentType = agent\<rparr>"
  let ?c = "create ?o ptyRes childRes (snd (kill tid s))"
  have c: "buffers_consistent (snd ?c)"
    using assms by (simp add: create_consistent kill_consistent)
  have i: "buffer_consistent inst" using assms Some by (rule registered_consistent)
  show ?thesis
  proof (cases "map_of (instances (snd ?c)) tid")
    case None
    then show ?thesis using Some c by (simp add: restart_def Let_def case_prod_beta)
  next
    case new: (Some newInstance)
    have n: "buffer_consistent (newInstance\<lparr>outputBuffer := outputBuffer inst,
            outputBufferSize := outputBufferSize inst\<rparr>)"
      using i by (simp add: buffer_consistent_def)
    show ?thesis
    proof (cases "fst ?c")
      case True
      then have "snd (restart tid dir shell agent ptyRes childRes s) =
          (snd ?c)\<lparr>instances := AList.update tid
             (newInstance\<lparr>outputBuffer := outputBuffer inst,
                outputBufferSize := outputBufferSize inst\<rparr>) (instances (snd ?c))\<rparr>"
        using Some new by (simp add: restart_def Let_def case_prod_beta)
      then show ?thesis using c n by (simp add: consistent_update)
    next
      case False
      then show ?thesis using Some c by (simp add: restart_def Let_def case_prod_beta)
    qed
  qed
qed

lemma clearOutputBuffer_consistent:
  assumes "buffers_consistent s"
  shows "buffers_consistent (clearOutputBuffer tid s)"
proof (cases "map_of (instances s) tid")
  case None
  then show ?thesis using assms by (simp add: clearOutputBuffer_def)
next
  case (Some inst)
  have "buffer_consistent (inst\<lparr>outputBuffer := [], outputBufferSize := 0\<rparr>)"
    by (simp add: buffer_consistent_def)
  with assms show ?thesis
    by (rule consistent_update) (simp add: clearOutputBuffer_def Some)
qed

lemma dispose_loop_consistent:
  "buffers_consistent s \<Longrightarrow> buffers_consistent (fold (\<lambda>tid s'. snd (kill tid s')) ks s)"
  by (induction ks arbitrary: s) (simp_all add: kill_consistent)

lemma dispose_consistent:
  "buffers_consistent s \<Longrightarrow> buffers_consistent (dispose s)"
  unfolding dispose_def by (rule dispose_loop_consistent) (simp add: buffers_consistent_def)

lemma onData_consistent:
  assumes "buffers_consistent s"
  shows "buffers_consistent (onData tid data s)"
proof (cases "map_of (instances s) tid")
  case None
  with assms show ?thesis by (simp add: onData_def consistent_same)
next
  case (Some inst)
  then have "buffer_consistent (bufferOutput data inst)"
    using assms by (blast intro: bufferOutput_consistent registered_consistent)
  with assms show ?thesis
    by (rule consistent_update) (simp add: onData_def Some)
qed

lemma onExit_consistent:
  "buffers_consistent s \<Longrightarrow> buffers_consistent (onExit tid exitCode s)"
  by (erule consistent_delete) (simp add: onExit_def Let_def)

lemma step_consistent:
  "buffers_consistent s \<Longrightarrow> buffers_consistent (step e s)"
proof (cases e)
  case (Write tid data)
  assume "buffers_consistent s"
  then show ?thesis
    by (rule consistent_same) (simp add: Write write_pty_def split: option.splits)
next
  case (Resize tid cols rows)
  assume "buffers_consistent s"
  then show ?thesis
    by (rule consistent_same) (simp add: Resize resize_def split: option.splits)
next
  case (ChildError tid message)
  assume "buffers_consistent s"
  then show ?thesis by (simp add: ChildError child_onError_def buffers_consistent_def)
next
  case WindowDestroyed
  assume "buffers_consistent s"
  then show ?thesis by (simp add: WindowDestroyed buffers_consistent_def)
qed (simp_all add: create_consistent kill_consistent restart_consistent
      clearOutputBuffer_consistent dispose_consistent onData_consistent onExit_consistent
      child_onExit_def)

lemma run_consistent:
  "buffers_consistent s \<Longrightarrow> buffers_consistent (run es s)"
  unfolding run_def by (induction es arbitrary: s) (simp_all add: step_consistent)

text \<open>
  C7. In every state a manager can reach from its construction, by any sequence of calls
  and backend events, the tracked size of every registered instance equals the sum of the
  lengths of its chunks; and every single operation or event keeps it so. The operations
  themselves only add, subtract, copy or reset the size, as \<open>bufferOutput\<close>, \<open>shift_chunk\<close>,
  \<open>clearOutputBuffer\<close> and \<open>restart\<close> show: none of them joins the chunks.
\<close>

theorem tracked_size_is_sum:
  "buffers_consistent (run es (new_PtyManager probe callback))
   \<and> (buffers_consistent s \<longrightarrow> buffers_consistent (step e s))"
proof -
  have "buffers_consistent (new_PtyManager probe callback)"
    by (simp add: buffers_consistent_def new_PtyManager_def)
  then show ?thesis by (simp add: run_consistent step_consistent)
qed

theorem tracked_size_is_sum_witness:
  "run [Create example_options (Spawned 1) SpawnThrows, PtyData (str ''s1'') (str ''hi'')]
     (new_PtyManager True True) = one_session_with_output
   \<and> set (instances one_session_with_output) \<noteq> {}
   \<and> buffers_consistent one_session_with_output
   \<and> buffers_consistent (step (ClearOutputBuffer (str ''s1'')) one_session_with_output)"
proof -
  have r: "run [Create example_options (Spawned 1) SpawnThrows, PtyData (str ''s1'') (str ''hi'')]
     (new_PtyManager True True) = one_session_with_output"
    by (simp add: run_def one_session_with_output_def one_session_def)
  have n: "set (instances one_session_with_output) \<noteq> {}"
    by (simp add: one_session_with_output_instances)
  note t = tracked_size_is_sum
      [of "[Create example_options (Spawned 1) SpawnThrows, PtyData (str ''s1'') (str ''hi'')]"
        True True one_session_with_output "ClearOutputBuffer (str ''s1'')"]
  have c: "buffers_consistent one_session_with_output"
    using t unfolding r by blast
  show ?thesis
    using r n c t by blast
qed

subsection \<open>The latches\<close>

lemma latched_refl: "latched s s"
  by (simp add: latched_def)

lemma latched_trans: "latched s s' \<Longrightarrow> latched s' s'' \<Longrightarrow> latched s s''"
  by (auto simp: latched_def)

lemma latched_safeSend: "latched s (safeSend n s)"
  by (simp add: latched_def safeSend_delivered)

lemma latched_notify: "latched s (notifyTerminalCountChange s)"
  by (simp add: latched_def notify_delivered)

lemma latched_instances: "latched s (s\<lparr>instances := al\<rparr>)"
  by (simp add: latched_def)

lemma latched_then_instances: "latched s s' \<Longrightarrow> latched s (s'\<lparr>instances := al\<rparr>)"
  by (simp add: latched_def)

lemma latched_call: "\<not> is_pty_spawn c \<Longrightarrow> latched s (s\<lparr>calls := calls s @ [c]\<rparr>)"
  by (simp add: latched_def)

lemma latched_create_child: "latched s (snd (create_child options childRes s))"
proof (cases childRes)
  case SpawnThrows
  then show ?thesis by (simp add: create_child_throws latched_call)
next
  case (Spawned h)
  have "latched s (s\<lparr>calls := calls s @ [ChildSpawn (opt_cwd options)]\<rparr>)"
    by (simp add: latched_call)
  then show ?thesis
    unfolding Spawned create_child_ok snd_conv
    by (blast intro: latched_trans latched_safeSend latched_instances latched_notify)
qed

lemma latched_create: "latched s (snd (create options ptyRes childRes s))"
proof (cases rule: create_cases [of s ptyRes])
  case (native h)
  then show ?thesis
    by (simp add: create_native_ok latched_def notify_delivered)
next
  case fallback
  have "latched s (s\<lparr>calls := calls s @ [PtySpawn (opt_cwd options)], ptyAvailable := False\<rparr>)"
    using fallback by (simp add: latched_def)
  then show ?thesis
    using fallback by (auto simp: create_native_throws intro: latched_trans latched_create_child)
next
  case unavailable
  then show ?thesis by (simp add: create_unavailable latched_create_child)
qed

lemma latched_kill: "latched s (snd (kill tid s))"
  by (cases "map_of (instances s) tid")
     (simp_all add: kill_def latched_def notify_delivered)

lemma latched_restart: "latched s (snd (restart tid dir shell agent ptyRes childRes s))"
proof (cases "map_of (instances s) tid")
  case None
  then show ?thesis by (simp add: restart_def latched_refl)
next
  case (Some inst)
  let ?o = "\<lparr>opt_id = tid, opt_cwd = dir, opt_type = type inst, opt_shell = shell,
             opt_codeAgentType = agent\<rparr>"
  let ?c = "create ?o ptyRes childRes (snd (kill tid s))"
  have c: "latched s (snd ?c)"
    by (blast intro: latched_trans latched_kill latched_create)
  have "snd (restart tid dir shell agent ptyRes childRes s) = snd ?c
        \<or> (\<exists>al. snd (restart tid dir shell agent ptyRes childRes s) = (snd ?c)\<lparr>instances := al\<rparr>)"
    using Some by (auto simp: restart_def Let_def case_prod_beta split: option.splits)
  then show ?thesis
    using c by (auto intro: latched_then_instances)
qed

lemma latched_dispose_loop: "latched s (fold (\<lambda>tid s'. snd (kill tid s')) ks s)"
proof (induction ks arbitrary: s)
  case Nil
  show ?case by (simp add: latched_refl)
next
  case (Cons k ks)
  show ?case
    using latched_kill [of s k] Cons [of "snd (kill k s)"] by (auto intro: latched_trans)
qed

lemma latched_dispose: "latched s (dispose s)"
proof -
  have "latched s (s\<lparr>disposed := True\<rparr>)" by (simp add: latched_def)
  then show ?thesis
    unfolding dispose_def by (rule latched_trans) (rule latched_dispose_loop)
qed

lemma latched_onData: "latched s (onData tid data s)"
  by (cases "map_of (instances s) tid")
     (simp_all add: onData_def latched_def safeSend_delivered)

lemma latched_onExit: "latched s (onExit tid exitCode s)"
  by (simp add: onExit_def Let_def latched_def safeSend_delivered notify_delivered)

lemma latched_step: "latched s (step e s)"
proof (cases e)
  case (Write tid data)
  then show ?thesis by (simp add: write_pty_def latched_def split: option.splits)
next
  case (Resize tid cols rows)
  then show ?thesis by (simp add: resize_def latched_def split: option.splits)
next
  case (ClearOutputBuffer tid)
  then show ?thesis by (simp add: clearOutputBuffer_def latched_def split: option.splits)
next
  case WindowDestroyed
  then show ?thesis by (simp add: latched_def)
qed (simp_all add: latched_create latched_kill latched_restart latched_dispose latched_onData
      latched_onExit child_onExit_def child_onError_def latched_safeSend)

lemma latched_run: "latched s (run es s)"
  unfolding run_def
proof (induction es arbitrary: s)
  case Nil
  show ?case by (simp add: latched_refl)
next
  case (Cons e es)
  show ?case
    using latched_step [of s e] Cons [of "step e s"] by (auto intro: latched_trans)
qed


subsection \<open>A failed native spawn disables the native backend for good\<close>

lemma create_child_calls:
  "calls (snd (create_child options childRes s)) = calls s @ [ChildSpawn (opt_cwd options)]"
  by (cases childRes) (simp_all add: create_child_ok create_child_throws)

lemma create_child_flag:
  "ptyAvailable (snd (create_child options childRes s)) = ptyAvailable s"
  by (cases childRes) (simp_all add: create_child_ok create_child_throws)

lemma create_child_result:
  "fst (create_child options childRes s) \<longleftrightarrow> childRes \<noteq> SpawnThrows"
  by (cases childRes) (simp_all add: create_child_ok create_child_throws)

lemma create_child_delivered:
  "delivered (snd (create_child options (Spawned h) s)) =
     delivered s
     @ (if \<not> disposed s \<and> \<not> windowDestroyed s
        then [PtyOutput (opt_id options) degraded_notice] else [])
     @ (if onTerminalCountChange s
        then [TerminalCount (length (instances (snd (create_child options (Spawned h) s))))]
        else [])"
  by (simp add: create_child_ok notify_delivered safeSend_delivered)

text \<open>
  C3, as the code has it. Let a native spawn throw during a create, and let any calls and
  events follow. Then the native-available flag is false after that create and false ever
  after, and no native spawn is requested any more. The create in which the spawn threw
  falls back to the child process at once. Every later create requests exactly one spawn,
  of a child process, leaves the flag false, returns true exactly when that spawn does
  not throw, and then registers an instance of the child-process kind. Its first
  notification is the degraded-mode notice, provided the manager is not disposed and the
  window not destroyed; otherwise \<open>safeSend\<close> drops the notice, and the create delivers no
  output or exit notification at all: all it delivers is the session count, when a count
  callback was supplied.
\<close>

theorem native_failure_is_permanent:
  assumes "ptyAvailable s"
    and "s1 = snd (create options0 SpawnThrows childRes0 s)"
    and "s2 = run es s1"
  shows "\<not> ptyAvailable s1 \<and> \<not> ptyAvailable s2
       \<and> filter is_pty_spawn (calls s2) = filter is_pty_spawn (calls s1)
       \<and> (fst (create options0 SpawnThrows childRes0 s) \<longleftrightarrow> childRes0 \<noteq> SpawnThrows)
       \<and> calls (snd (create options ptyRes childRes s2))
           = calls s2 @ [ChildSpawn (opt_cwd options)]
       \<and> \<not> ptyAvailable (snd (create options ptyRes childRes s2))
       \<and> (fst (create options ptyRes childRes s2) \<longleftrightarrow> childRes \<noteq> SpawnThrows)
       \<and> (childRes = Spawned h \<longrightarrow>
            map_of (instances (snd (create options ptyRes childRes s2))) (opt_id options)
              = Some (fresh_instance h options False)
            \<and> (\<not> disposed s2 \<and> \<not> windowDestroyed s2 \<longrightarrow>
                 delivered (snd (create options ptyRes childRes s2))
                   = delivered s2 @ PtyOutput (opt_id options) degraded_notice
                       # (if onTerminalCountChange s2
                          then [TerminalCount
                                  (length (instances (snd (create options ptyRes childRes s2))))]
                          else []))
            \<and> (disposed s2 \<or> windowDestroyed s2 \<longrightarrow>
                 delivered (snd (create options ptyRes childRes s2))
                   = delivered s2
                       @ (if onTerminalCountChange s2
                          then [TerminalCount
                                  (length (instances (snd (create options ptyRes childRes s2))))]
                          else [])
                 \<and> filter is_ipc (delivered (snd (create options ptyRes childRes s2)))
                     = filter is_ipc (delivered s2)))"
proof -
  have s1: "s1 = snd (create_child options0 childRes0
      (s\<lparr>calls := calls s @ [PtySpawn (opt_cwd options0)], ptyAvailable := False\<rparr>))"
    using assms(1,2) by (simp add: create_native_throws)
  then have f1: "\<not> ptyAvailable s1" by (simp add: create_child_flag)
  have "latched s1 s2" unfolding assms(3) by (rule latched_run)
  with f1 have f2: "\<not> ptyAvailable s2"
    and c2: "filter is_pty_spawn (calls s2) = filter is_pty_spawn (calls s1)"
    by (simp_all add: latched_def)
  have r0: "fst (create options0 SpawnThrows childRes0 s) \<longleftrightarrow> childRes0 \<noteq> SpawnThrows"
    using assms(1) by (simp add: create_native_throws create_child_result)
  have cr: "create options ptyRes childRes s2 = create_child options childRes s2"
    using f2 by (rule create_unavailable)
  have d: "map_of (instances (snd (create options ptyRes childRes s2))) (opt_id options)
              = Some (fresh_instance h options False)
            \<and> (\<not> disposed s2 \<and> \<not> windowDestroyed s2 \<longrightarrow>
                 delivered (snd (create options ptyRes childRes s2))
                   = delivered s2 @ PtyOutput (opt_id options) degraded_notice
                       # (if onTerminalCountChange s2
                          then [TerminalCount
                                  (length (instances (snd (create options ptyRes childRes s2))))]
                          else []))
            \<and> (disposed s2 \<or> windowDestroyed s2 \<longrightarrow>
                 delivered (snd (create options ptyRes childRes s2))
                   = delivered s2
                       @ (if onTerminalCountChange s2
                          then [TerminalCount
                                  (length (instances (snd (create options ptyRes childRes s2))))]
                          else [])
                 \<and> filter is_ipc (delivered (snd (create options ptyRes childRes s2)))
                     = filter is_ipc (delivered s2))"
    if "childRes = Spawned h"
  proof -
    have cr': "create options ptyRes childRes s2 = create_child options (Spawned h) s2"
      using cr that by simp
    have i: "instances (snd (create_child options (Spawned h) s2)) =
        AList.update (opt_id options) (fresh_instance h options False) (instances s2)"
      by (simp add: create_child_ok)
    show ?thesis
      unfolding cr' by (simp add: create_child_delivered) (simp add: i update_conv')
  qed
  show ?thesis
    using f1 f2 c2 r0 d
    by (simp add: cr create_child_calls create_child_flag create_child_result)
qed


theorem native_failure_is_permanent_witness:
  "ptyAvailable (new_PtyManager True True)
   \<and> ptyAvailable
        (run [StdoutData (str ''s1'') (str ''hi'')]
           (snd (create example_options SpawnThrows (Spawned 1) (new_PtyManager True True))))
       = False
   \<and> fst (create example_options (Spawned 5) (Spawned 2)
        (run [StdoutData (str ''s1'') (str ''hi'')]
           (snd (create example_options SpawnThrows (Spawned 1) (new_PtyManager True True)))))
   \<and> calls (snd (create example_options (Spawned 5) (Spawned 2)
        (run [StdoutData (str ''s1'') (str ''hi'')]
           (snd (create example_options SpawnThrows (Spawned 1) (new_PtyManager True True))))))
       = [PtySpawn (str ''/tmp''), ChildSpawn (str ''/tmp''), ChildSpawn (str ''/tmp'')]"
proof -
  let ?s = "new_PtyManager True True"
  let ?s1 = "snd (create example_options SpawnThrows (Spawned 1) ?s)"
  let ?s2 = "run [StdoutData (str ''s1'') (str ''hi'')] ?s1"
  have h: "ptyAvailable ?s" by (simp add: new_PtyManager_def)
  have c: "calls ?s2 = [PtySpawn (str ''/tmp''), ChildSpawn (str ''/tmp'')]"
    by (simp add: run_def onData_def create_native_throws create_child_ok
        new_PtyManager_def example_options_def split: option.splits)
  note t = native_failure_is_permanent [OF h refl refl,
      where ?childRes0.0 = "Spawned 1" and ?options0.0 = example_options
        and es = "[StdoutData (str ''s1'') (str ''hi'')]" and options = example_options
        and ptyRes = "Spawned 5" and childRes = "Spawned 2" and h = 2]
  show ?thesis
    using h c t by (simp add: example_options_def)
qed

lemma degraded_disposed_value:
  "degraded_disposed =
     \<lparr>instances = [], disposed = True, onTerminalCountChange = True, ptyAvailable = False,
      windowDestroyed = False,
      delivered = [PtyOutput (str ''s1'') degraded_notice, TerminalCount 1, TerminalCount 0],
      calls = [PtySpawn (str ''/tmp''), ChildSpawn (str ''/tmp''), ProcessKill 1]\<rparr>"
  by (simp add: degraded_disposed_def run_def create_native_throws create_child_ok dispose_def
      kill_def new_PtyManager_def example_options_def safeSend_def
      notifyTerminalCountChange_def fresh_instance_def)

text \<open>
  C3 as it is written fails in its last part: on a manager whose first native spawn threw
  and that was disposed afterwards, a create still succeeds on the child-process path, yet
  no notice is delivered; the only thing this create delivers is the session count 1.
\<close>

theorem notice_dropped_after_dispose_counterexample:
  "delivered degraded_disposed
     = [PtyOutput (str ''s1'') degraded_notice, TerminalCount 1, TerminalCount 0]
   \<and> fst (create example_options (Spawned 2) (Spawned 3) degraded_disposed)
   \<and> map_of (instances (snd (create example_options (Spawned 2) (Spawned 3) degraded_disposed)))
        (str ''s1'')
       = Some (fresh_instance 3 example_options False)
   \<and> delivered (snd (create example_options (Spawned 2) (Spawned 3) degraded_disposed))
       = delivered degraded_disposed @ [TerminalCount 1]"
  by (simp add: degraded_disposed_value create_unavailable create_child_ok safeSend_def
      notifyTerminalCountChange_def example_options_def)

subsection \<open>Dispose\<close>

lemma dispose_loop_instances:
  "instances (fold (\<lambda>tid s'. snd (kill tid s')) ks s) =
     filter (\<lambda>p. fst p \<notin> set ks) (instances s)"
  by (induction ks arbitrary: s) (auto simp: kill_instances AList.delete_eq intro: filter_cong)

lemma dispose_loop_effects:
  assumes "distinct (map fst al)" and "instances s = al"
  shows "calls (fold (\<lambda>tid s'. snd (kill tid s')) (map fst al) s) =
           calls s @ map (\<lambda>p. ProcessKill (process (snd p))) al
       \<and> delivered (fold (\<lambda>tid s'. snd (kill tid s')) (map fst al) s) =
           delivered s @ (if onTerminalCountChange s
                          then map TerminalCount (rev [0..<length al]) else [])"
  using assms
proof (induction al arbitrary: s)
  case Nil
  then show ?case by simp
next
  case (Cons kv al)
  obtain k v where kv: "kv = (k, v)" by (cases kv)
  let ?s1 = "snd (kill k s)"
  have notin: "k \<notin> fst ` set al" using Cons.prems(1) kv by auto
  have look: "map_of (instances s) k = Some v" using Cons.prems(2) kv by simp
  have i1: "instances ?s1 = al"
    using Cons.prems(2) kv notin by (simp add: kill_instances)
  have c1: "calls ?s1 = calls s @ [ProcessKill (process v)]"
    using look by (simp add: kill_registered)
  have d1: "delivered ?s1 =
      delivered s @ (if onTerminalCountChange s then [TerminalCount (length al)] else [])"
    using look notin Cons.prems(2) kv by (simp add: kill_registered notify_delivered)
  have o1: "onTerminalCountChange ?s1 = onTerminalCountChange s"
    using look by (simp add: kill_registered)
  have d: "distinct (map fst al)" using Cons.prems(1) by simp
  show ?case
    using Cons.IH [OF d i1] by (simp add: kv c1 d1 o1)
qed

text \<open>
  C4, as the code has it. \<open>dispose\<close> sets the shutdown flag and empties the registry; with
  the ids of the registry distinct, as the keys of a \<^verbatim>\<open>Map\<close> are, it kills the process of
  every registered session, in order. From then on, whatever calls and events follow, the
  flag stays set and no output or exit notification is delivered any more. The
  session-count callback is not behind the flag: during \<open>dispose\<close> it is called once per
  killed session, with the counts going down to 0.
\<close>

theorem dispose_shuts_down:
  "disposed (dispose s) \<and> instances (dispose s) = []
   \<and> disposed (run es (dispose s))
   \<and> filter is_ipc (delivered (run es (dispose s))) = filter is_ipc (delivered s)
   \<and> (distinct (map fst (instances s)) \<longrightarrow>
        calls (dispose s) =
          calls s @ map (\<lambda>p. ProcessKill (process (snd p))) (instances s)
        \<and> delivered (dispose s) =
            delivered s @ (if onTerminalCountChange s
                           then map TerminalCount (rev [0..<length (instances s)]) else []))"
proof -
  let ?s0 = "s\<lparr>disposed := True\<rparr>"
  have l0: "latched ?s0 (dispose s)"
    unfolding dispose_def by (rule latched_dispose_loop)
  then have d: "disposed (dispose s)"
    and f: "filter is_ipc (delivered (dispose s)) = filter is_ipc (delivered s)"
    by (simp_all add: latched_def)
  have "latched (dispose s) (run es (dispose s))" by (rule latched_run)
  with d f have r: "disposed (run es (dispose s))"
    and rf: "filter is_ipc (delivered (run es (dispose s))) = filter is_ipc (delivered s)"
    by (simp_all add: latched_def)
  have e: "instances (dispose s) = []"
    by (simp add: dispose_def dispose_loop_instances)
  have k: "calls (dispose s) =
          calls s @ map (\<lambda>p. ProcessKill (process (snd p))) (instances s)
        \<and> delivered (dispose s) =
            delivered s @ (if onTerminalCountChange s
                           then map TerminalCount (rev [0..<length (instances s)]) else [])"
    if "distinct (map fst (instances s))"
    using dispose_loop_effects [OF that, of ?s0] by (simp add: dispose_def)
  show ?thesis using d e r rf k by blast
qed

lemma one_session_value:
  "one_session =
     \<lparr>instances = [(str ''s1'', fresh_instance 1 example_options True)], disposed = False,
      onTerminalCountChange = True, ptyAvailable = True, windowDestroyed = False,
      delivered = [TerminalCount 1], calls = [PtySpawn (str ''/tmp'')]\<rparr>"
  by (simp add: one_session_def create_native_ok new_PtyManager_def example_options_def
      notifyTerminalCountChange_def)

theorem dispose_shuts_down_witness:
  "distinct (map fst (instances one_session))
   \<and> disposed (dispose one_session) \<and> instances (dispose one_session) = []
   \<and> calls (dispose one_session) = [PtySpawn (str ''/tmp''), ProcessKill 1]
   \<and> filter is_ipc
        (delivered (run [PtyExited (str ''s1'') 0, StdoutData (str ''s1'') (str ''hi'')]
                      (dispose one_session)))
       = []"
proof -
  have h: "distinct (map fst (instances one_session))"
    by (simp add: one_session_value)
  show ?thesis
    using h dispose_shuts_down
      [of one_session "[PtyExited (str ''s1'') 0, StdoutData (str ''s1'') (str ''hi'')]"]
    by (simp add: one_session_value fresh_instance_def)
qed

text \<open>
  C4 as it is written fails for the session-count notification: disposing a manager with
  one session delivers the count 0 after the flag is set, and the exit event of the killed
  process, arriving after \<open>dispose\<close> has returned, delivers the count once more.
\<close>

theorem count_delivered_after_dispose_counterexample:
  "disposed (dispose one_session)
   \<and> delivered one_session = [TerminalCount 1]
   \<and> delivered (dispose one_session) = [TerminalCount 1, TerminalCount 0]
   \<and> delivered (step (PtyExited (str ''s1'') 0) (dispose one_session))
       = [TerminalCount 1, TerminalCount 0, TerminalCount 0]"
  by (simp add: one_session_value dispose_def kill_def onExit_def Let_def safeSend_def
      notifyTerminalCountChange_def)

subsection \<open>The ids of the registry are distinct\<close>

text \<open>
  The registry is a \<^verbatim>\<open>Map\<close>; the list that stands for it never holds an id twice, so its
  length is the \<^verbatim>\<open>size\<close> of the map.
\<close>

lemma create_keys:
  assumes "distinct (map fst (instances s))"
  shows "distinct (map fst (instances (snd (create options ptyRes childRes s))))"
proof (cases "fst (create options ptyRes childRes s)")
  case True
  then show ?thesis
    using create_success_instances [OF True] assms by (auto simp: distinct_update)
next
  case False
  then show ?thesis
    using create_failure_instances [OF False] assms by simp
qed

lemma kill_keys:
  "distinct (map fst (instances s)) \<Longrightarrow> distinct (map fst (instances (snd (kill tid s))))"
  by (simp add: kill_instances distinct_delete)

lemma restart_keys:
  assumes "distinct (map fst (instances s))"
  shows "distinct (map fst (instances (snd (restart tid dir shell agent ptyRes childRes s))))"
proof (cases "map_of (instances s) tid")
  case None
  then show ?thesis using assms by (simp add: restart_def)
next
  case (Some inst)
  let ?o = "\<lparr>opt_id = tid, opt_cwd = dir, opt_type = type inst, opt_shell = shell,
             opt_codeAgentType = agent\<rparr>"
  let ?c = "create ?o ptyRes childRes (snd (kill tid s))"
  have "distinct (map fst (instances (snd ?c)))"
    using assms by (simp add: create_keys kill_keys)
  then show ?thesis
    using Some
    by (auto simp: restart_def Let_def case_prod_beta distinct_update split: option.splits)
qed

lemma dispose_keys:
  "distinct (map fst (instances s)) \<Longrightarrow> distinct (map fst (instances (dispose s)))"
  by (simp add: dispose_def dispose_loop_instances distinct_map_filter)

lemma step_keys:
  "distinct (map fst (instances s)) \<Longrightarrow> distinct (map fst (instances (step e s)))"
  by (cases e)
     (auto simp: create_keys kill_keys restart_keys dispose_keys write_pty_def resize_def
       clearOutputBuffer_def onData_def onExit_def child_onExit_def child_onError_def Let_def
       distinct_update distinct_delete split: option.splits)

lemma reachable_keys:
  "distinct (map fst (instances (run es (new_PtyManager probe callback))))"
proof -
  have "distinct (map fst (instances (fold step es s)))"
    if "distinct (map fst (instances s))" for s
    using that by (induction es arbitrary: s) (simp_all add: step_keys)
  then show ?thesis by (simp add: run_def new_PtyManager_def)
qed

section \<open>Properties of the restoration filter\<close>

subsection \<open>The designated sequences\<close>




subsection \<open>Matching at a position\<close>










subsection \<open>One pass\<close>


lemma replace_g_no_match:
  "match_at ps (x # xs) = None \<Longrightarrow> replace_g ps (x # xs) = x # replace_g ps xs"
  by simp






subsection \<open>Two passes in a row against one pass for both\<close>







lemma pattern_values:
  "clear_screen = [27, 91, 50, 74]"
  "clear_scrollback = [27, 91, 51, 74]"
  "cursor_home = [27, 91, 72]"
  "alt_screen_on = [27, 91, 63, 49, 48, 52, 57, 104]"
  "alt_screen_off = [27, 91, 63, 49, 48, 52, 57, 108]"
  "reset_terminal = [27, 99]"
  by (simp_all add: clear_screen_def clear_scrollback_def cursor_home_def alt_screen_on_def
      alt_screen_off_def reset_terminal_def str_def ESC_def)

lemma filter_can_leave_clear_screen:
  "filterClearScreenCodes (ESC # str ''['' @ cursor_home @ str ''2J'') = clear_screen"
  by (simp add: filterClearScreenCodes_def pattern_values match_at_def str_def ESC_def)

subsection \<open>What the filter removes\<close>




end
